theory Spec2Isabelle
  imports Main "HOL-Library.Sublist"
begin

section \<open>pdfwala: the PDFKit wrapper of src/index.js\<close>

text \<open>
  The class \<open>PDFKit\<close> of src/index.js wraps three collaborators that are not part of the
  repository: Node's \<open>fs\<close> and \<open>path\<close> modules, the text decoder \<open>pdf-parse\<close> and the
  page library \<open>pdf-lib\<close>. What they answer is taken as a parameter (the record \<open>env\<close>);
  every call the code makes to them is written down in a trace, in the order in which the
  code makes it, so that "before any file read" is a statement about that trace.
  A JavaScript \<open>throw\<close> is the left injection of a sum; \<open>await\<close> is sequencing.
\<close>

subsection \<open>Errors\<close>

text \<open>
  \<open>class PDFKitError extends Error\<close> carries a message and a \<open>type\<close> tag (a string).
  Anything else that can be thrown (a filesystem error, a delegate's error, a TypeError of
  the runtime) is an \<open>Error\<close> with its message; \<open>err instanceof PDFKitError\<close> tells the
  two constructors apart.
\<close>

datatype thrown =
    PDFKitError string string
  | Error string

fun message :: "thrown \<Rightarrow> string" where
  "message (PDFKitError m t) = m"
| "message (Error m) = m"

fun instanceof_PDFKitError :: "thrown \<Rightarrow> bool" where
  "instanceof_PDFKitError (PDFKitError m t) = True"
| "instanceof_PDFKitError (Error m) = False"

text \<open>The \<open>type\<close> field; a plain \<open>Error\<close> has none (\<open>undefined\<close> in JavaScript).\<close>

fun type_tag :: "thrown \<Rightarrow> string option" where
  "type_tag (PDFKitError m t) = Some t"
| "type_tag (Error m) = None"

subsection \<open>The collaborators\<close>

type_synonym buffer = string

text \<open>The object \<open>pdf-parse\<close> resolves to; only these two fields are read.\<close>

record pdf_data =
  "text" :: string
  numpages :: nat

text \<open>
  A document of \<open>pdf-lib\<close> is the list of its pages (\<open>getPageCount\<close> is its length,
  \<open>copyPages(doc, [i])\<close> yields page \<open>i\<close>, \<open>addPage\<close> appends); \<open>'p\<close> is whatever a page is.
  \<open>PDFDocument_serialize\<close> gives the bytes of the PDF file that holds exactly the given pages,
  \<open>PDFDocument_load\<close> reads such bytes back, and \<open>PDFPage_blank\<close> is the empty page that
  \<open>addPage()\<close> without an argument creates.
  A failing collaborator answers \<open>Inl\<close> with the message of the error it throws.
  \<open>str_toLowerCase\<close> is \<open>String.prototype.toLowerCase\<close>.
\<close>

record 'p env =
  fs_existsSync :: "string \<Rightarrow> bool"
  fs_readFileSync :: "string \<Rightarrow> string + buffer"
  fs_writeFileSync :: "string \<Rightarrow> buffer \<Rightarrow> string option"
  path_extname :: "string \<Rightarrow> string"
  path_basename :: "string \<Rightarrow> string"
  str_toLowerCase :: "string \<Rightarrow> string"
  pdf_parse :: "buffer \<Rightarrow> string + pdf_data"
  PDFDocument_load :: "buffer \<Rightarrow> string + 'p list"
  PDFDocument_serialize :: "'p list \<Rightarrow> string + buffer"
  PDFPage_blank :: "'p"

datatype 'p event =
    ExistsSync string
  | ReadFileSync string
  | WriteFileSync string buffer
  | Pdfparse buffer
  | Load buffer
  | Create
  | CopyPages nat
  | Save "'p list"
  | Warn int

text \<open>A computation: the calls made so far, and either what was thrown or the value.\<close>

type_synonym ('p, 'a) io = "'p event list \<times> (thrown + 'a)"

definition ret :: "'a \<Rightarrow> ('p, 'a) io" where
  "ret x = ([], Inr x)"

definition throw :: "thrown \<Rightarrow> ('p, 'a) io" where
  "throw e = ([], Inl e)"

definition bind :: "('p, 'a) io \<Rightarrow> ('a \<Rightarrow> ('p, 'b) io) \<Rightarrow> ('p, 'b) io" where
  "bind m f =
     (case m of
        (t, Inl e) \<Rightarrow> (t, Inl e)
      | (t, Inr x) \<Rightarrow> (case f x of (t', r) \<Rightarrow> (t @ t', r)))"

text \<open>\<open>try { m } catch (err) { h err }\<close>\<close>

definition try_catch :: "('p, 'a) io \<Rightarrow> (thrown \<Rightarrow> ('p, 'a) io) \<Rightarrow> ('p, 'a) io" where
  "try_catch m h =
     (case m of
        (t, Inl e) \<Rightarrow> (case h e of (t', r) \<Rightarrow> (t @ t', r))
      | (t, Inr x) \<Rightarrow> (t, Inr x))"

definition call :: "'p event \<Rightarrow> string + 'a \<Rightarrow> ('p, 'a) io" where
  "call ev answer =
     ([ev], case answer of Inl msg \<Rightarrow> Inl (Error msg) | Inr x \<Rightarrow> Inr x)"

definition existsSync :: "'p env \<Rightarrow> string \<Rightarrow> ('p, bool) io" where
  "existsSync env p = call (ExistsSync p) (Inr (fs_existsSync env p))"

definition readFileSync :: "'p env \<Rightarrow> string \<Rightarrow> ('p, buffer) io" where
  "readFileSync env p = call (ReadFileSync p) (fs_readFileSync env p)"

definition writeFileSync :: "'p env \<Rightarrow> string \<Rightarrow> buffer \<Rightarrow> ('p, unit) io" where
  "writeFileSync env p b =
     call (WriteFileSync p b)
       (case fs_writeFileSync env p b of Some msg \<Rightarrow> Inl msg | None \<Rightarrow> Inr ())"

definition pdfparse :: "'p env \<Rightarrow> buffer \<Rightarrow> ('p, pdf_data) io" where
  "pdfparse env b = call (Pdfparse b) (pdf_parse env b)"

definition load :: "'p env \<Rightarrow> buffer \<Rightarrow> ('p, 'p list) io" where
  "load env b = call (Load b) (PDFDocument_load env b)"

definition create :: "unit \<Rightarrow> ('p, 'p list) io" where
  "create u = call Create (Inr [])"

definition getPageCount_doc :: "'p list \<Rightarrow> int" where
  "getPageCount_doc doc = int (length doc)"

text \<open>\<open>copyPages(pdfDoc, [i])\<close>, called only with \<open>0 \<le> i < getPageCount()\<close>.\<close>

definition copyPages :: "'p list \<Rightarrow> nat \<Rightarrow> ('p, 'p) io" where
  "copyPages doc i = call (CopyPages i) (Inr (doc ! i))"

definition addPage :: "'p list \<Rightarrow> 'p \<Rightarrow> 'p list" where
  "addPage doc pg = doc @ [pg]"

text \<open>
  \<open>doc.save()\<close> with no options, as src/index.js calls it. The option \<open>addDefaultPage\<close> of
  \<open>pdf-lib\<close> is then \<open>true\<close>: a document that has no page is given one blank page before it
  is serialised. \<open>Save d\<close> records the pages \<open>d\<close> that were serialised.
\<close>

definition save :: "'p env \<Rightarrow> 'p list \<Rightarrow> ('p, buffer) io" where
  "save env doc =
     (let saved = (if getPageCount_doc doc = 0 then addPage doc (PDFPage_blank env) else doc)
      in call (Save saved) (PDFDocument_serialize env saved))"

definition warn :: "int \<Rightarrow> ('p, unit) io" where
  "warn pageNum = call (Warn pageNum) (Inr ())"

subsection \<open>Strings of the runtime\<close>

definition newline :: char where
  "newline = CHR 0x0A"

text \<open>
  \<open>s.split(sep)\<close> for a one-character separator: never empty, \<open>''.split(sep)\<close> is \<open>['']\<close>.
\<close>

fun split :: "char \<Rightarrow> string \<Rightarrow> string list" where
  "split sep [] = [[]]"
| "split sep (c # cs) =
     (if c = sep then [] # split sep cs
      else (case split sep cs of
              [] \<Rightarrow> [[c]]
            | l # ls \<Rightarrow> (c # l) # ls))"

text \<open>\<open>xs.join(sep)\<close> on an array of strings.\<close>

fun join :: "char \<Rightarrow> string list \<Rightarrow> string" where
  "join sep [] = []"
| "join sep [x] = x"
| "join sep (x # y # ys) = x @ sep # join sep (y # ys)"

text \<open>\<open>s.includes(t)\<close>: \<open>t\<close> occurs in \<open>s\<close> as a contiguous run; the empty \<open>t\<close> always does.\<close>

fun str_includes :: "string \<Rightarrow> string \<Rightarrow> bool" where
  "str_includes [] t = (t = [])"
| "str_includes (c # cs) t = (prefix t (c # cs) \<or> str_includes cs t)"

subsection \<open>src/index.js\<close>

text \<open>The handler every method ends with: a PDFKitError is rethrown, anything else is
  wrapped under the method's own tag, its message appended to the method's label.\<close>

definition rethrow_or_wrap :: "string \<Rightarrow> string \<Rightarrow> thrown \<Rightarrow> ('p, 'a) io" where
  "rethrow_or_wrap label tag err =
     (if instanceof_PDFKitError err then throw err
      else throw (PDFKitError (label @ message err) tag))"

definition validateFilePath :: "'p env \<Rightarrow> string \<Rightarrow> ('p, unit) io" where
  "validateFilePath env filePath =
     bind (existsSync env filePath) (\<lambda>ex.
       if \<not> ex then throw (PDFKitError (''File not found: '' @ filePath) ''FileNotFound'')
       else
         let ext = str_toLowerCase env (path_extname env filePath) in
         if ext \<noteq> ''.pdf''
         then throw (PDFKitError (''Invalid file type. Expected .pdf, got '' @ ext)
                       ''InvalidFileType'')
         else ret ())"

definition intoarray :: "'p env \<Rightarrow> string \<Rightarrow> ('p, string list) io" where
  "intoarray env filePath =
     try_catch
       (bind (validateFilePath env filePath) (\<lambda>_.
        bind (readFileSync env filePath) (\<lambda>pdf.
        bind (pdfparse env pdf) (\<lambda>data.
        ret (split newline (text data))))))
       (rethrow_or_wrap ''Failed to parse PDF: '' ''ParseError'')"

definition getPageCount :: "'p env \<Rightarrow> string \<Rightarrow> ('p, nat) io" where
  "getPageCount env filePath =
     try_catch
       (bind (validateFilePath env filePath) (\<lambda>_.
        bind (readFileSync env filePath) (\<lambda>pdf.
        bind (pdfparse env pdf) (\<lambda>data.
        ret (numpages data)))))
       (rethrow_or_wrap ''Failed to get page count: '' ''PageCountError'')"

text \<open>
  The third argument of \<open>searchText\<close>: left out (the default \<open>{}\<close> applies), \<open>null\<close>
  (destructuring it throws a TypeError), or an object whose \<open>caseSensitive\<close> is absent or
  a boolean.
\<close>

datatype options = Omitted | Null | Obj "bool option"

definition destructure_caseSensitive :: "options \<Rightarrow> ('p, bool) io" where
  "destructure_caseSensitive opts =
     (case opts of
        Omitted \<Rightarrow> ret False
      | Null \<Rightarrow>
          throw (Error ''Cannot destructure property 'caseSensitive' of 'options' as it is null.'')
      | Obj None \<Rightarrow> ret False
      | Obj (Some b) \<Rightarrow> ret b)"

definition searchFunc :: "'p env \<Rightarrow> bool \<Rightarrow> string \<Rightarrow> string \<Rightarrow> bool" where
  "searchFunc env caseSensitive searchTerm line =
     (if caseSensitive then str_includes line searchTerm
      else str_includes (str_toLowerCase env line) (str_toLowerCase env searchTerm))"

definition searchText :: "'p env \<Rightarrow> string \<Rightarrow> string \<Rightarrow> options \<Rightarrow> ('p, string list) io" where
  "searchText env filePath searchTerm opts =
     try_catch
       (bind (validateFilePath env filePath) (\<lambda>_.
        bind (destructure_caseSensitive opts) (\<lambda>caseSensitive.
        if searchTerm = []
        then throw (PDFKitError ''Invalid search terms provided'' ''InvalidSearchTerm'')
        else
          bind (intoarray env filePath) (\<lambda>lines.
          ret (filter (searchFunc env caseSensitive searchTerm) lines)))))
       (rethrow_or_wrap ''Failed to search PDF: '' ''SearchError'')"

text \<open>The \<open>for ... of\<close> loop of \<open>extractPages\<close>, with \<open>newPdfDoc\<close> as the loop state.\<close>

fun copy_loop :: "'p list \<Rightarrow> int list \<Rightarrow> 'p list \<Rightarrow> ('p, 'p list) io" where
  "copy_loop pdfDoc [] newPdfDoc = ret newPdfDoc"
| "copy_loop pdfDoc (pageNum # rest) newPdfDoc =
     (if pageNum > 0 \<and> pageNum \<le> getPageCount_doc pdfDoc
      then bind (copyPages pdfDoc (nat (pageNum - 1))) (\<lambda>copiedPage.
           copy_loop pdfDoc rest (addPage newPdfDoc copiedPage))
      else bind (warn pageNum) (\<lambda>_.
           copy_loop pdfDoc rest newPdfDoc))"

text \<open>
  \<open>outputPath\<close> is \<open>None\<close> when left out; \<open>pageNumbers\<close> is \<open>None\<close> when it is left out or
  is not an array, and its elements are taken to be integers. The method returns nothing:
  what it does is in the trace.
\<close>

definition extractPages ::
  "'p env \<Rightarrow> string \<Rightarrow> string option \<Rightarrow> int list option \<Rightarrow> ('p, unit) io" where
  "extractPages env inputPath outputPath pageNumbers =
     try_catch
       (bind (validateFilePath env inputPath) (\<lambda>_.
        case outputPath of
          None \<Rightarrow> throw (PDFKitError ''Invalid path provided'' ''InvalidOutputPath'')
        | Some out \<Rightarrow>
            if out = [] then throw (PDFKitError ''Invalid path provided'' ''InvalidOutputPath'')
            else
              (case pageNumbers of
                 None \<Rightarrow>
                   throw (PDFKitError ''Invalid page numbers provided'' ''InvalidPageNumbers'')
               | Some nums \<Rightarrow>
                   if length nums = 0
                   then throw (PDFKitError ''Invalid page numbers provided''
                                 ''InvalidPageNumbers'')
                   else
                     bind (readFileSync env inputPath) (\<lambda>sourcePdfBytes.
                     bind (load env sourcePdfBytes) (\<lambda>pdfDoc.
                     bind (create ()) (\<lambda>newPdfDoc0.
                     bind (copy_loop pdfDoc nums newPdfDoc0) (\<lambda>newPdfDoc.
                     bind (save env newPdfDoc) (\<lambda>pdfBytes.
                     bind (writeFileSync env out pdfBytes) (\<lambda>_.
                     ret ())))))))))
       (rethrow_or_wrap ''Failed to extract pages: '' ''ExtractPagesError'')"

record metadata =
  totalPages :: nat
  totalText :: string
  textLength :: nat
  filename :: string

definition getMetadata :: "'p env \<Rightarrow> string \<Rightarrow> ('p, metadata) io" where
  "getMetadata env filePath =
     try_catch
       (bind (validateFilePath env filePath) (\<lambda>_.
        bind (readFileSync env filePath) (\<lambda>pdf.
        bind (pdfparse env pdf) (\<lambda>data.
        ret \<lparr> totalPages = numpages data,
              totalText = text data,
              textLength = length (text data),
              filename = path_basename env filePath \<rparr>))))
       (rethrow_or_wrap ''Failed to get metadata: '' ''MetadataError'')"

definition convertToText :: "'p env \<Rightarrow> string \<Rightarrow> string option \<Rightarrow> ('p, string) io" where
  "convertToText env inputPath outputPath =
     try_catch
       (bind (validateFilePath env inputPath) (\<lambda>_.
        bind (intoarray env inputPath) (\<lambda>lines.
        case outputPath of
          None \<Rightarrow> ret (join newline lines)
        | Some out \<Rightarrow>
            if out \<noteq> []
            then bind (writeFileSync env out (join newline lines)) (\<lambda>_. ret [])
            else ret (join newline lines))))
       (rethrow_or_wrap ''Failed to convert PDF to text: '' ''ConvertToTextError'')"

subsection \<open>src/unnamed/part_000: the earlier \<open>intoarray\<close>\<close>

text \<open>
  No validation and no wrapping: a throw of \<open>readFileSync\<close> inside the promise's executor,
  or a rejection of \<open>pdfparse\<close>, rejects the promise with that very error.
\<close>

definition intoarray_part_000 :: "'p env \<Rightarrow> string \<Rightarrow> ('p, string list) io" where
  "intoarray_part_000 env path =
     bind (readFileSync env path) (\<lambda>pdf.
     bind (pdfparse env pdf) (\<lambda>data.
     ret (split newline (text data))))"

subsection \<open>Vocabulary of the claims\<close>

text \<open>A valid path: \<open>_validateFilePath\<close> lets it through.\<close>

definition valid_path :: "'p env \<Rightarrow> string \<Rightarrow> bool" where
  "valid_path env p =
     (fs_existsSync env p \<and> str_toLowerCase env (path_extname env p) = ''.pdf'')"

text \<open>The \<open>type\<close> of what a call threw, if it threw a PDFKitError.\<close>

definition thrown_type :: "('p, 'a) io \<Rightarrow> string option" where
  "thrown_type r = (case snd r of Inl e \<Rightarrow> type_tag e | Inr x \<Rightarrow> None)"

text \<open>
  A call that fails under the tag \<open>tag\<close> having asked the filesystem only whether \<open>p\<close>
  exists: nothing was read, no delegate was invoked.
\<close>

definition fails_before_reading :: "string \<Rightarrow> string \<Rightarrow> ('p, 'a) io \<Rightarrow> bool" where
  "fails_before_reading p tag r =
     (fst r = [ExistsSync p] \<and>
      (case snd r of Inl e \<Rightarrow> type_tag e = Some tag | Inr x \<Rightarrow> False))"

text \<open>
  The reading of \<open>extractPages\<close> in the specification. The pages asked for: the requested
  1-based numbers in input order, those outside \<open>1 .. page count\<close> dropped, each replaced by
  the page it names.
\<close>

definition requested_pages :: "'p list \<Rightarrow> int list \<Rightarrow> 'p list" where
  "requested_pages pdfDoc pageNumbers =
     map (\<lambda>n. pdfDoc ! nat (n - 1))
       (filter (\<lambda>n. 1 \<le> n \<and> n \<le> int (length pdfDoc)) pageNumbers)"

text \<open>
  The pages of the file that is written: the pages asked for, or the one blank page of
  \<open>save()\<close> when none of the requested numbers is in range.
\<close>

definition written_pages :: "'p env \<Rightarrow> 'p list \<Rightarrow> int list \<Rightarrow> 'p list" where
  "written_pages env pdfDoc pageNumbers =
     (if requested_pages pdfDoc pageNumbers = [] then [PDFPage_blank env]
      else requested_pages pdfDoc pageNumbers)"

text \<open>What the loop is expected to ask of the collaborators, one call per requested number.\<close>

definition requested_calls :: "'p list \<Rightarrow> int list \<Rightarrow> 'p event list" where
  "requested_calls pdfDoc pageNumbers =
     map (\<lambda>n. if 1 \<le> n \<and> n \<le> int (length pdfDoc) then CopyPages (nat (n - 1)) else Warn n)
       pageNumbers"

subsection \<open>An environment to run the code in\<close>

text \<open>
  A small filesystem for the examples: \<open>/docs/report.pdf\<close> is a five-page document,
  \<open>/docs/broken.pdf\<close> exists but does not decode, \<open>/docs/notes.txt\<close> exists,
  nothing else does, and \<open>/readonly\<close> refuses writes. The three string functions stand in
  for Node's on the ASCII paths used here. A file written by the page library is \<open>%PDF|\<close>
  followed by its pages, each closed by a bar, and is read back as those pages.
\<close>

definition ascii_lower :: "char \<Rightarrow> char" where
  "ascii_lower c =
     (case map_of (zip ''ABCDEFGHIJKLMNOPQRSTUVWXYZ'' ''abcdefghijklmnopqrstuvwxyz'') c of
        None \<Rightarrow> c
      | Some l \<Rightarrow> l)"

definition ascii_toLowerCase :: "string \<Rightarrow> string" where
  "ascii_toLowerCase s = map ascii_lower s"

definition last_component :: "string \<Rightarrow> string" where
  "last_component p = rev (takeWhile (\<lambda>c. c \<noteq> CHR ''/'') (rev p))"

definition dot_suffix :: "string \<Rightarrow> string" where
  "dot_suffix p =
     (if CHR ''.'' \<in> set (last_component p)
      then CHR ''.'' # rev (takeWhile (\<lambda>c. c \<noteq> CHR ''.'') (rev (last_component p)))
      else [])"

definition report_text :: string where
  "report_text =
     ''Foo bar'' @ newline # ''foo'' @ newline # ''FOO baz'' @ newline # ''a fOo'' @ newline # ''qux''"

definition demo_env :: "string env" where
  "demo_env =
     \<lparr> fs_existsSync = (\<lambda>p. p = ''/docs/report.pdf'' \<or> p = ''/docs/broken.pdf''
                              \<or> p = ''/docs/notes.txt''),
       fs_readFileSync = (\<lambda>p. if p = ''/docs/report.pdf'' then Inr ''%PDF-report''
                               else if p = ''/docs/broken.pdf'' then Inr ''garbage''
                               else if p = ''/docs/notes.txt'' then Inr ''plain notes''
                               else Inl ''ENOENT: no such file or directory''),
       fs_writeFileSync = (\<lambda>p b. if prefix ''/readonly/'' p
                                  then Some ''EACCES: permission denied'' else None),
       path_extname = dot_suffix,
       path_basename = last_component,
       str_toLowerCase = ascii_toLowerCase,
       pdf_parse = (\<lambda>b. if b = ''%PDF-report''
                         then Inr \<lparr> text = report_text, numpages = 5 \<rparr>
                         else Inl ''Invalid PDF structure''),
       PDFDocument_load = (\<lambda>b. if b = ''%PDF-report''
                                then Inr [''page1'', ''page2'', ''page3'', ''page4'', ''page5'']
                                else if prefix ''%PDF|'' b
                                then Inr (butlast (split (CHR ''|'') (drop 5 b)))
                                else Inl ''Failed to parse PDF document''),
       PDFDocument_serialize = (\<lambda>doc. Inr (''%PDF|'' @ concat (map (\<lambda>pg. pg @ ''|'') doc))),
       PDFPage_blank = ''blank'' \<rparr>"

section \<open>Properties\<close>

subsection \<open>The runtime's string functions\<close>

lemma split_nonempty: "split sep s \<noteq> []"
  by (induction s) (auto split: list.splits)

lemma join_split: "join sep (split sep s) = s"
proof (induction s)
  case Nil
  show ?case by simp
next
  case (Cons c cs)
  obtain l ls where r: "split sep cs = l # ls"
    using split_nonempty [of sep cs] by (cases "split sep cs") auto
  with Cons show ?case
    by (cases ls) auto
qed

lemma split_no_separator: "l \<in> set (split sep s) \<Longrightarrow> sep \<notin> set l"
proof (induction s arbitrary: l)
  case Nil
  then show ?case by simp
next
  case (Cons c cs)
  obtain k ks where r: "split sep cs = k # ks"
    using split_nonempty [of sep cs] by (cases "split sep cs") auto
  with Cons show ?case
    by (auto split: if_splits)
qed

lemma str_includes_sublist: "str_includes s t \<longleftrightarrow> sublist t s"
  by (induction s) (auto simp: sublist_Cons_right)

subsection \<open>Unfolding the methods\<close>

lemmas io_defs = ret_def throw_def bind_def try_catch_def call_def rethrow_or_wrap_def

lemmas demo_defs = demo_env_def dot_suffix_def last_component_def ascii_toLowerCase_def
  ascii_lower_def
  report_text_def newline_def valid_path_def

lemma validateFilePath_eq:
  "validateFilePath env p =
     ([ExistsSync p],
      if \<not> fs_existsSync env p
      then Inl (PDFKitError (''File not found: '' @ p) ''FileNotFound'')
      else if str_toLowerCase env (path_extname env p) \<noteq> ''.pdf''
      then Inl (PDFKitError (''Invalid file type. Expected .pdf, got ''
                  @ str_toLowerCase env (path_extname env p)) ''InvalidFileType'')
      else Inr ())"
  by (simp add: validateFilePath_def existsSync_def io_defs Let_def)

lemma validateFilePath_valid:
  "valid_path env p \<Longrightarrow> validateFilePath env p = ([ExistsSync p], Inr ())"
  by (simp add: validateFilePath_eq valid_path_def)

text \<open>Every method has this shape; on a path that is not valid the body is never entered.\<close>

lemma guarded_invalid:
  assumes "\<not> valid_path env p"
  shows "try_catch (bind (validateFilePath env p) f) (rethrow_or_wrap label tag) =
     ([ExistsSync p],
      Inl (if \<not> fs_existsSync env p
           then PDFKitError (''File not found: '' @ p) ''FileNotFound''
           else PDFKitError (''Invalid file type. Expected .pdf, got ''
                  @ str_toLowerCase env (path_extname env p)) ''InvalidFileType''))"
  using assms by (simp add: validateFilePath_eq valid_path_def io_defs)

lemma intoarray_valid:
  assumes "valid_path env p"
  shows "intoarray env p =
     (case fs_readFileSync env p of
        Inl m \<Rightarrow> ([ExistsSync p, ReadFileSync p],
                  Inl (PDFKitError (''Failed to parse PDF: '' @ m) ''ParseError''))
      | Inr pdf \<Rightarrow>
          (case pdf_parse env pdf of
             Inl m \<Rightarrow> ([ExistsSync p, ReadFileSync p, Pdfparse pdf],
                       Inl (PDFKitError (''Failed to parse PDF: '' @ m) ''ParseError''))
           | Inr data \<Rightarrow> ([ExistsSync p, ReadFileSync p, Pdfparse pdf],
                          Inr (split newline (text data)))))"
  by (simp add: intoarray_def validateFilePath_valid [OF assms] readFileSync_def pdfparse_def
      io_defs split: sum.splits)

lemma intoarray_invalid:
  assumes "\<not> valid_path env p"
  shows "\<exists>e. intoarray env p = ([ExistsSync p], Inl e)"
  by (simp add: intoarray_def guarded_invalid [OF assms])

lemma intoarray_success_valid:
  "snd (intoarray env p) = Inr ls \<Longrightarrow> valid_path env p"
  using intoarray_invalid [of env p] by (cases "valid_path env p") auto

lemma getMetadata_valid:
  assumes "valid_path env p"
  shows "getMetadata env p =
     (case fs_readFileSync env p of
        Inl m \<Rightarrow> ([ExistsSync p, ReadFileSync p],
                  Inl (PDFKitError (''Failed to get metadata: '' @ m) ''MetadataError''))
      | Inr pdf \<Rightarrow>
          (case pdf_parse env pdf of
             Inl m \<Rightarrow> ([ExistsSync p, ReadFileSync p, Pdfparse pdf],
                       Inl (PDFKitError (''Failed to get metadata: '' @ m) ''MetadataError''))
           | Inr data \<Rightarrow> ([ExistsSync p, ReadFileSync p, Pdfparse pdf],
                          Inr \<lparr> totalPages = numpages data, totalText = text data,
                                textLength = length (text data),
                                filename = path_basename env p \<rparr>)))"
  by (simp add: getMetadata_def validateFilePath_valid [OF assms] readFileSync_def pdfparse_def
      io_defs split: sum.splits)

lemma getMetadata_invalid:
  assumes "\<not> valid_path env p"
  shows "\<exists>e. getMetadata env p = ([ExistsSync p], Inl e)"
  by (simp add: getMetadata_def guarded_invalid [OF assms])

lemma getMetadata_success:
  assumes "snd (getMetadata env p) = Inr md"
  shows "\<exists>pdf data. fs_readFileSync env p = Inr pdf \<and> pdf_parse env pdf = Inr data \<and>
           md = \<lparr> totalPages = numpages data, totalText = text data,
                  textLength = length (text data), filename = path_basename env p \<rparr>"
proof -
  have v: "valid_path env p"
    using assms getMetadata_invalid [of env p] by (cases "valid_path env p") auto
  show ?thesis
    using assms by (auto simp add: getMetadata_valid [OF v] split: sum.splits)
qed

subsection \<open>Text extraction\<close>

text \<open>
  C5. On a valid path whose bytes are read and decoded, \<open>intoarray\<close> returns the decoded
  text split at newlines. That sequence is never empty, rejoining it with newlines gives the
  text back and no line contains a newline; \<open>"a\nb\nc"\<close> splits into \<open>["a","b","c"]\<close> and
  the empty text into \<open>[""]\<close>.
\<close>

theorem intoarray_splits_decoded_text:
  assumes "valid_path env p"
    and "fs_readFileSync env p = Inr pdf"
    and "pdf_parse env pdf = Inr data"
  shows "snd (intoarray env p) = Inr (split newline (text data))
       \<and> 1 \<le> length (split newline (text data))
       \<and> join newline (split newline (text data)) = text data
       \<and> (\<forall>l \<in> set (split newline (text data)). newline \<notin> set l)
       \<and> split newline (''a'' @ newline # ''b'' @ newline # ''c'') = [''a'', ''b'', ''c'']
       \<and> split newline [] = [[]]"
proof -
  have "snd (intoarray env p) = Inr (split newline (text data))"
    using assms by (simp add: intoarray_valid)
  moreover have "1 \<le> length (split newline (text data))"
    using split_nonempty [of newline "text data"]
    by (cases "split newline (text data)") auto
  moreover have "split newline (''a'' @ newline # ''b'' @ newline # ''c'') = [''a'', ''b'', ''c'']"
    by (simp add: newline_def)
  moreover have "\<forall>l \<in> set (split newline (text data)). newline \<notin> set l"
    using split_no_separator [of _ newline "text data"] by blast
  ultimately show ?thesis
    by (simp add: join_split)
qed

theorem intoarray_splits_decoded_text_witness:
  "valid_path demo_env ''/docs/report.pdf''
   \<and> fs_readFileSync demo_env ''/docs/report.pdf'' = Inr ''%PDF-report''
   \<and> pdf_parse demo_env ''%PDF-report'' = Inr \<lparr> text = report_text, numpages = 5 \<rparr>
   \<and> snd (intoarray demo_env ''/docs/report.pdf'')
       = Inr [''Foo bar'', ''foo'', ''FOO baz'', ''a fOo'', ''qux'']"
proof -
  have v: "valid_path demo_env ''/docs/report.pdf''"
    by (simp add: demo_defs)
  have r: "fs_readFileSync demo_env ''/docs/report.pdf'' = Inr ''%PDF-report''"
    by (simp add: demo_defs)
  have d: "pdf_parse demo_env ''%PDF-report'' = Inr \<lparr> text = report_text, numpages = 5 \<rparr>"
    by (simp add: demo_defs)
  show ?thesis
    using v r d intoarray_splits_decoded_text [OF v r d, THEN conjunct1]
    by (simp add: report_text_def newline_def)
qed

subsection \<open>Metadata\<close>

text \<open>
  C8. Whenever \<open>getMetadata\<close> succeeds, the record it returns has \<open>textLength\<close> equal to the
  length of \<open>totalText\<close>, and \<open>totalPages\<close> and \<open>totalText\<close> are the page count and the text
  that the text decoder reported for the bytes of the file.
\<close>

theorem getMetadata_textLength_totalPages:
  assumes "snd (getMetadata env p) = Inr md"
  shows "textLength md = length (totalText md)
       \<and> (\<exists>pdf data. fs_readFileSync env p = Inr pdf \<and> pdf_parse env pdf = Inr data
             \<and> totalPages md = numpages data \<and> totalText md = text data)"
  using getMetadata_success [OF assms] by auto

theorem getMetadata_textLength_totalPages_witness:
  "snd (getMetadata demo_env ''/docs/report.pdf'')
     = Inr \<lparr> totalPages = 5, totalText = report_text, textLength = 29,
             filename = ''report.pdf'' \<rparr>
   \<and> textLength \<lparr> totalPages = 5, totalText = report_text, textLength = 29,
                  filename = ''report.pdf'' \<rparr> = length report_text"
proof -
  have v: "valid_path demo_env ''/docs/report.pdf''"
    by (simp add: demo_defs)
  have g: "snd (getMetadata demo_env ''/docs/report.pdf'')
     = Inr \<lparr> totalPages = 5, totalText = report_text, textLength = 29,
             filename = ''report.pdf'' \<rparr>"
    by (simp add: getMetadata_valid [OF v]) (simp add: demo_defs)
  show ?thesis
    using g getMetadata_textLength_totalPages [OF g, THEN conjunct1] by simp
qed

text \<open>
  C9. Whenever \<open>getMetadata\<close> succeeds, the \<open>filename\<close> of the record is
  \<open>path.basename\<close> of the path that was given, not the path itself.
\<close>

theorem getMetadata_filename_is_basename:
  assumes "snd (getMetadata env p) = Inr md"
  shows "filename md = path_basename env p"
  using getMetadata_success [OF assms] by auto

theorem getMetadata_filename_is_basename_witness:
  "snd (getMetadata demo_env ''/docs/report.pdf'')
     = Inr \<lparr> totalPages = 5, totalText = report_text, textLength = 29,
             filename = ''report.pdf'' \<rparr>
   \<and> path_basename demo_env ''/docs/report.pdf'' = ''report.pdf''
   \<and> ''report.pdf'' \<noteq> ''/docs/report.pdf''"
proof -
  have v: "valid_path demo_env ''/docs/report.pdf''"
    by (simp add: demo_defs)
  have g: "snd (getMetadata demo_env ''/docs/report.pdf'')
     = Inr \<lparr> totalPages = 5, totalText = report_text, textLength = 29,
             filename = ''report.pdf'' \<rparr>"
    by (simp add: getMetadata_valid [OF v]) (simp add: demo_defs)
  show ?thesis
    using g getMetadata_filename_is_basename [OF g] by simp
qed

subsection \<open>The two versions of \<open>intoarray\<close>\<close>

lemma intoarray_part_000_eq:
  "intoarray_part_000 env p =
     (case fs_readFileSync env p of
        Inl m \<Rightarrow> ([ReadFileSync p], Inl (Error m))
      | Inr pdf \<Rightarrow>
          (case pdf_parse env pdf of
             Inl m \<Rightarrow> ([ReadFileSync p, Pdfparse pdf], Inl (Error m))
           | Inr data \<Rightarrow> ([ReadFileSync p, Pdfparse pdf], Inr (split newline (text data)))))"
  by (simp add: intoarray_part_000_def readFileSync_def pdfparse_def io_defs split: sum.splits)

text \<open>
  C10. On an existing \<open>.pdf\<close> path whose bytes are read and decoded, the \<open>intoarray\<close> of
  src/index.js and the one of src/unnamed/part_000 return the same lines. On such a path each
  succeeds exactly when the other does; where the earlier one fails it rejects with the
  collaborator's own error, which the current one wraps as a \<open>ParseError\<close>.
\<close>

theorem intoarray_agrees_with_part_000:
  assumes "valid_path env p"
  shows "(fs_readFileSync env p = Inr pdf \<and> pdf_parse env pdf = Inr data \<longrightarrow>
            snd (intoarray env p) = Inr (split newline (text data))
          \<and> snd (intoarray_part_000 env p) = Inr (split newline (text data)))
       \<and> (snd (intoarray env p) = Inr ls \<longleftrightarrow> snd (intoarray_part_000 env p) = Inr ls)
       \<and> (snd (intoarray_part_000 env p) = Inl e \<longrightarrow>
            e = Error (message e)
          \<and> snd (intoarray env p)
              = Inl (PDFKitError (''Failed to parse PDF: '' @ message e) ''ParseError''))"
  by (auto simp add: intoarray_valid [OF assms] intoarray_part_000_eq split: sum.splits)

theorem intoarray_agrees_with_part_000_witness:
  "valid_path demo_env ''/docs/report.pdf''
   \<and> snd (intoarray demo_env ''/docs/report.pdf'')
       = Inr [''Foo bar'', ''foo'', ''FOO baz'', ''a fOo'', ''qux'']
   \<and> snd (intoarray_part_000 demo_env ''/docs/report.pdf'')
       = Inr [''Foo bar'', ''foo'', ''FOO baz'', ''a fOo'', ''qux'']
   \<and> valid_path demo_env ''/docs/broken.pdf''
   \<and> snd (intoarray_part_000 demo_env ''/docs/broken.pdf'') = Inl (Error ''Invalid PDF structure'')
   \<and> snd (intoarray demo_env ''/docs/broken.pdf'')
       = Inl (PDFKitError ''Failed to parse PDF: Invalid PDF structure'' ''ParseError'')"
proof -
  have v: "valid_path demo_env ''/docs/report.pdf''"
    by (simp add: demo_defs)
  have r: "fs_readFileSync demo_env ''/docs/report.pdf'' = Inr ''%PDF-report''
         \<and> pdf_parse demo_env ''%PDF-report'' = Inr \<lparr> text = report_text, numpages = 5 \<rparr>"
    by (simp add: demo_defs)
  have s: "split newline report_text = [''Foo bar'', ''foo'', ''FOO baz'', ''a fOo'', ''qux'']"
    by (simp add: report_text_def newline_def)
  have v': "valid_path demo_env ''/docs/broken.pdf''"
    by (simp add: demo_defs)
  have b: "snd (intoarray_part_000 demo_env ''/docs/broken.pdf'')
             = Inl (Error ''Invalid PDF structure'')"
    by (simp add: intoarray_part_000_eq) (simp add: demo_defs)
  show ?thesis
    using v v' b s
      intoarray_agrees_with_part_000 [OF v, of "''%PDF-report''"
        "\<lparr> text = report_text, numpages = 5 \<rparr>", THEN conjunct1, rule_format, OF r]
      intoarray_agrees_with_part_000 [OF v', THEN conjunct2, THEN conjunct2, rule_format, OF b]
    by simp
qed

subsection \<open>Validation comes first\<close>

text \<open>
  C7. In each of the six public methods, a path that does not exist fails with
  \<open>FileNotFound\<close>, and a path that exists but whose extension, lower-cased, is not
  \<open>.pdf\<close> fails with \<open>InvalidFileType\<close>; in both cases the only call made before the
  failure is the existence check, so no file was read and no delegate was invoked. This holds
  whatever the other arguments are.
\<close>

theorem invalid_path_fails_before_reading:
  "(\<not> fs_existsSync env p \<longrightarrow>
        fails_before_reading p ''FileNotFound'' (intoarray env p)
      \<and> fails_before_reading p ''FileNotFound'' (getPageCount env p)
      \<and> fails_before_reading p ''FileNotFound'' (searchText env p searchTerm opts)
      \<and> fails_before_reading p ''FileNotFound'' (extractPages env p outputPath pageNumbers)
      \<and> fails_before_reading p ''FileNotFound'' (getMetadata env p)
      \<and> fails_before_reading p ''FileNotFound'' (convertToText env p textPath))
   \<and> (fs_existsSync env p \<and> str_toLowerCase env (path_extname env p) \<noteq> ''.pdf'' \<longrightarrow>
        fails_before_reading p ''InvalidFileType'' (intoarray env p)
      \<and> fails_before_reading p ''InvalidFileType'' (getPageCount env p)
      \<and> fails_before_reading p ''InvalidFileType'' (searchText env p searchTerm opts)
      \<and> fails_before_reading p ''InvalidFileType'' (extractPages env p outputPath pageNumbers)
      \<and> fails_before_reading p ''InvalidFileType'' (getMetadata env p)
      \<and> fails_before_reading p ''InvalidFileType'' (convertToText env p textPath))"
proof (intro conjI impI)
  assume a: "\<not> fs_existsSync env p"
  then have n: "\<not> valid_path env p"
    by (simp add: valid_path_def)
  show "fails_before_reading p ''FileNotFound'' (intoarray env p)"
    using a by (simp add: intoarray_def guarded_invalid [OF n] fails_before_reading_def)
  show "fails_before_reading p ''FileNotFound'' (getPageCount env p)"
    using a by (simp add: getPageCount_def guarded_invalid [OF n] fails_before_reading_def)
  show "fails_before_reading p ''FileNotFound'' (searchText env p searchTerm opts)"
    using a by (simp add: searchText_def guarded_invalid [OF n] fails_before_reading_def)
  show "fails_before_reading p ''FileNotFound'' (extractPages env p outputPath pageNumbers)"
    using a by (simp add: extractPages_def guarded_invalid [OF n] fails_before_reading_def)
  show "fails_before_reading p ''FileNotFound'' (getMetadata env p)"
    using a by (simp add: getMetadata_def guarded_invalid [OF n] fails_before_reading_def)
  show "fails_before_reading p ''FileNotFound'' (convertToText env p textPath)"
    using a by (simp add: convertToText_def guarded_invalid [OF n] fails_before_reading_def)
next
  assume a: "fs_existsSync env p \<and> str_toLowerCase env (path_extname env p) \<noteq> ''.pdf''"
  then have n: "\<not> valid_path env p"
    by (simp add: valid_path_def)
  show "fails_before_reading p ''InvalidFileType'' (intoarray env p)"
    using a by (simp add: intoarray_def guarded_invalid [OF n] fails_before_reading_def)
  show "fails_before_reading p ''InvalidFileType'' (getPageCount env p)"
    using a by (simp add: getPageCount_def guarded_invalid [OF n] fails_before_reading_def)
  show "fails_before_reading p ''InvalidFileType'' (searchText env p searchTerm opts)"
    using a by (simp add: searchText_def guarded_invalid [OF n] fails_before_reading_def)
  show "fails_before_reading p ''InvalidFileType'' (extractPages env p outputPath pageNumbers)"
    using a by (simp add: extractPages_def guarded_invalid [OF n] fails_before_reading_def)
  show "fails_before_reading p ''InvalidFileType'' (getMetadata env p)"
    using a by (simp add: getMetadata_def guarded_invalid [OF n] fails_before_reading_def)
  show "fails_before_reading p ''InvalidFileType'' (convertToText env p textPath)"
    using a by (simp add: convertToText_def guarded_invalid [OF n] fails_before_reading_def)
qed

theorem invalid_path_fails_before_reading_witness:
  "\<not> fs_existsSync demo_env ''/docs/missing.pdf''
   \<and> fails_before_reading ''/docs/missing.pdf'' ''FileNotFound''
        (extractPages demo_env ''/docs/missing.pdf'' (Some ''/out/x.pdf'') (Some [1]))
   \<and> getMetadata demo_env ''/docs/missing.pdf''
        = ([ExistsSync ''/docs/missing.pdf''],
           Inl (PDFKitError ''File not found: /docs/missing.pdf'' ''FileNotFound''))
   \<and> fs_existsSync demo_env ''/docs/notes.txt''
   \<and> str_toLowerCase demo_env (path_extname demo_env ''/docs/notes.txt'') \<noteq> ''.pdf''
   \<and> fails_before_reading ''/docs/notes.txt'' ''InvalidFileType''
        (convertToText demo_env ''/docs/notes.txt'' None)
   \<and> intoarray demo_env ''/docs/notes.txt''
        = ([ExistsSync ''/docs/notes.txt''],
           Inl (PDFKitError ''Invalid file type. Expected .pdf, got .txt'' ''InvalidFileType''))"
proof -
  have m: "\<not> fs_existsSync demo_env ''/docs/missing.pdf''"
    by (simp add: demo_defs)
  have t: "fs_existsSync demo_env ''/docs/notes.txt''
         \<and> str_toLowerCase demo_env (path_extname demo_env ''/docs/notes.txt'') \<noteq> ''.pdf''"
    by (simp add: demo_defs)
  have nm: "\<not> valid_path demo_env ''/docs/missing.pdf''"
    using m by (simp add: valid_path_def)
  have nt: "\<not> valid_path demo_env ''/docs/notes.txt''"
    using t by (simp add: valid_path_def)
  have gm: "getMetadata demo_env ''/docs/missing.pdf''
        = ([ExistsSync ''/docs/missing.pdf''],
           Inl (PDFKitError ''File not found: /docs/missing.pdf'' ''FileNotFound''))"
    using m by (simp add: getMetadata_def guarded_invalid [OF nm])
  have it: "intoarray demo_env ''/docs/notes.txt''
        = ([ExistsSync ''/docs/notes.txt''],
           Inl (PDFKitError ''Invalid file type. Expected .pdf, got .txt'' ''InvalidFileType''))"
    by (simp add: intoarray_def guarded_invalid [OF nt]) (simp add: demo_defs)
  show ?thesis
    using m t gm it
      invalid_path_fails_before_reading [of demo_env "''/docs/missing.pdf''" "[]" Omitted
        "Some ''/out/x.pdf''" "Some [1]" None, THEN conjunct1, rule_format, OF m]
      invalid_path_fails_before_reading [of demo_env "''/docs/notes.txt''" "[]" Omitted
        None None None, THEN conjunct2, rule_format, OF t]
    by simp
qed

subsection \<open>Search\<close>

lemma intoarray_valid_error:
  assumes "valid_path env p" and "snd (intoarray env p) = Inl e"
  shows "\<exists>m. e = PDFKitError m ''ParseError''"
  using assms(2) by (auto simp add: intoarray_valid [OF assms(1)] split: sum.splits)

lemma searchText_null:
  assumes "valid_path env p"
  shows "fst (searchText env p searchTerm Null) = [ExistsSync p]
       \<and> thrown_type (searchText env p searchTerm Null) = Some ''SearchError''"
  by (simp add: searchText_def validateFilePath_valid [OF assms] destructure_caseSensitive_def
      io_defs thrown_type_def)

lemma searchText_empty:
  assumes "valid_path env p" and "opts \<noteq> Null"
  shows "searchText env p [] opts =
     ([ExistsSync p], Inl (PDFKitError ''Invalid search terms provided'' ''InvalidSearchTerm''))"
  using assms(2)
  by (simp add: searchText_def validateFilePath_valid [OF assms(1)]
      destructure_caseSensitive_def io_defs split: options.splits option.splits)

lemma searchText_run:
  assumes "valid_path env p" and "opts \<noteq> Null" and "searchTerm \<noteq> []"
  shows "searchText env p searchTerm opts =
     (ExistsSync p # fst (intoarray env p),
      case snd (intoarray env p) of
        Inl e \<Rightarrow> Inl e
      | Inr lines \<Rightarrow> Inr (filter (searchFunc env (opts = Obj (Some True)) searchTerm) lines))"
proof (cases "snd (intoarray env p)")
  case (Inl e)
  then obtain m where e: "e = PDFKitError m ''ParseError''"
    using intoarray_valid_error [OF assms(1)] by blast
  have i: "intoarray env p = (fst (intoarray env p), Inl (PDFKitError m ''ParseError''))"
    using Inl e by (simp add: prod_eq_iff)
  show ?thesis
    using assms(2,3) Inl e
    by (subst (1) searchText_def, subst (1) i)
       (simp add: validateFilePath_valid [OF assms(1)] destructure_caseSensitive_def io_defs
          split: options.splits option.splits)
next
  case (Inr lines)
  have i: "intoarray env p = (fst (intoarray env p), Inr lines)"
    using Inr by (simp add: prod_eq_iff)
  show ?thesis
    using assms(2,3) Inr
    by (subst (1) searchText_def, subst (1) i)
       (simp add: validateFilePath_valid [OF assms(1)] destructure_caseSensitive_def io_defs
          split: options.splits option.splits)
qed

text \<open>
  C1, as the code has it. On a path that exists and has the extension \<open>.pdf\<close>, and with any
  options other than \<open>null\<close>, \<open>searchText\<close> with the empty search term throws
  \<open>InvalidSearchTerm\<close>, having done nothing but the existence check. The path is validated
  before the term is looked at, so a missing path fails with \<open>FileNotFound\<close> and a path
  without \<open>.pdf\<close> with \<open>InvalidFileType\<close>; and destructuring \<open>null\<close> options throws before
  the term is looked at, which comes out as \<open>SearchError\<close>.
\<close>

theorem searchText_empty_term_counterexample:
  "thrown_type (searchText demo_env ''/docs/missing.pdf'' [] Omitted) = Some ''FileNotFound''
   \<and> thrown_type (searchText demo_env ''/docs/notes.txt'' [] Omitted) = Some ''InvalidFileType''
   \<and> thrown_type (searchText demo_env ''/docs/report.pdf'' [] Null) = Some ''SearchError''"
proof -
  have nm: "\<not> valid_path demo_env ''/docs/missing.pdf''"
    by (simp add: demo_defs)
  have nt: "\<not> valid_path demo_env ''/docs/notes.txt''"
    by (simp add: demo_defs)
  have v: "valid_path demo_env ''/docs/report.pdf''"
    by (simp add: demo_defs)
  have "thrown_type (searchText demo_env ''/docs/missing.pdf'' [] Omitted) = Some ''FileNotFound''"
    by (simp add: searchText_def guarded_invalid [OF nm] thrown_type_def) (simp add: demo_defs)
  moreover have
    "thrown_type (searchText demo_env ''/docs/notes.txt'' [] Omitted) = Some ''InvalidFileType''"
    by (simp add: searchText_def guarded_invalid [OF nt] thrown_type_def) (simp add: demo_defs)
  ultimately show ?thesis
    using searchText_null [OF v, of "[]"] by simp
qed

theorem searchText_empty_term:
  assumes "valid_path env p" and "opts \<noteq> Null"
  shows "searchText env p [] opts =
           ([ExistsSync p],
            Inl (PDFKitError ''Invalid search terms provided'' ''InvalidSearchTerm''))
       \<and> thrown_type (searchText env p [] opts) = Some ''InvalidSearchTerm''"
  by (simp add: searchText_empty [OF assms] thrown_type_def)

theorem searchText_empty_term_witness:
  "valid_path demo_env ''/docs/report.pdf'' \<and> Obj (Some True) \<noteq> Null
   \<and> thrown_type (searchText demo_env ''/docs/report.pdf'' [] (Obj (Some True)))
       = Some ''InvalidSearchTerm''
   \<and> valid_path demo_env ''/docs/broken.pdf'' \<and> Omitted \<noteq> Null
   \<and> thrown_type (searchText demo_env ''/docs/broken.pdf'' [] Omitted)
       = Some ''InvalidSearchTerm''"
proof -
  have v: "valid_path demo_env ''/docs/report.pdf''"
    by (simp add: demo_defs)
  have v': "valid_path demo_env ''/docs/broken.pdf''"
    by (simp add: demo_defs)
  have o: "Obj (Some True) \<noteq> Null" "Omitted \<noteq> Null"
    by simp_all
  show ?thesis
    using v v' searchText_empty_term [OF v o(1), THEN conjunct2]
      searchText_empty_term [OF v' o(2), THEN conjunct2]
    by simp
qed

text \<open>
  C2, as the code has it. Whatever \<open>searchText\<close> throws is a PDFKitError whose tag is one of
  \<open>FileNotFound\<close>, \<open>InvalidFileType\<close>, \<open>InvalidSearchTerm\<close>, \<open>SearchError\<close> and
  \<open>ParseError\<close>: a PDFKitError thrown by the nested \<open>intoarray\<close> is rethrown as it is, so a
  file that cannot be read or decoded shows the caller \<open>ParseError\<close>.
\<close>

theorem searchText_error_tags_counterexample:
  "thrown_type (searchText demo_env ''/docs/broken.pdf'' ''foo'' Omitted) = Some ''ParseError''
   \<and> ''ParseError'' \<notin> set [''FileNotFound'', ''InvalidFileType'', ''InvalidSearchTerm'',
                            ''SearchError'']"
proof -
  have v: "valid_path demo_env ''/docs/broken.pdf''"
    by (simp add: demo_defs)
  have i: "intoarray demo_env ''/docs/broken.pdf''
        = ([ExistsSync ''/docs/broken.pdf'', ReadFileSync ''/docs/broken.pdf'',
            Pdfparse ''garbage''],
           Inl (PDFKitError ''Failed to parse PDF: Invalid PDF structure'' ''ParseError''))"
    by (simp add: intoarray_valid [OF v]) (simp add: demo_defs)
  have "thrown_type (searchText demo_env ''/docs/broken.pdf'' ''foo'' Omitted)
          = Some ''ParseError''"
    by (simp add: searchText_run [OF v] i thrown_type_def)
  then show ?thesis by simp
qed

theorem searchText_error_tags:
  assumes "snd (searchText env p searchTerm opts) = Inl e"
  shows "instanceof_PDFKitError e
       \<and> type_tag e \<in> set [Some ''FileNotFound'', Some ''InvalidFileType'',
                             Some ''InvalidSearchTerm'', Some ''SearchError'',
                             Some ''ParseError'']"
proof (cases "valid_path env p")
  case False
  have "snd (searchText env p searchTerm opts) =
          Inl (if \<not> fs_existsSync env p
               then PDFKitError (''File not found: '' @ p) ''FileNotFound''
               else PDFKitError (''Invalid file type. Expected .pdf, got ''
                      @ str_toLowerCase env (path_extname env p)) ''InvalidFileType'')"
    by (simp add: searchText_def guarded_invalid [OF False])
  with assms have
    "e = (if \<not> fs_existsSync env p
          then PDFKitError (''File not found: '' @ p) ''FileNotFound''
          else PDFKitError (''Invalid file type. Expected .pdf, got ''
                 @ str_toLowerCase env (path_extname env p)) ''InvalidFileType'')"
    by simp
  then show ?thesis
    by (cases "fs_existsSync env p") simp_all
next
  case True
  show ?thesis
  proof (cases "opts = Null")
    case n: True
    have "thrown_type (searchText env p searchTerm opts) = Some ''SearchError''"
      using searchText_null [OF True, of searchTerm] n by simp
    with assms have "type_tag e = Some ''SearchError''"
      by (simp add: thrown_type_def)
    then show ?thesis
      by (cases e) simp_all
  next
    case n: False
    show ?thesis
    proof (cases "searchTerm = []")
      case t: True
      have "snd (searchText env p searchTerm opts) =
              Inl (PDFKitError ''Invalid search terms provided'' ''InvalidSearchTerm'')"
        using t searchText_empty [OF True n] by simp
      with assms have "e = PDFKitError ''Invalid search terms provided'' ''InvalidSearchTerm''"
        by simp
      then show ?thesis by simp
    next
      case t: False
      have "snd (searchText env p searchTerm opts) =
              (case snd (intoarray env p) of
                 Inl e \<Rightarrow> Inl e
               | Inr lines \<Rightarrow>
                   Inr (filter (searchFunc env (opts = Obj (Some True)) searchTerm) lines))"
        by (simp add: searchText_run [OF True n t])
      with assms have "snd (intoarray env p) = Inl e"
        by (cases "snd (intoarray env p)") simp_all
      then obtain m where "e = PDFKitError m ''ParseError''"
        using intoarray_valid_error [OF True] by blast
      then show ?thesis by simp
    qed
  qed
qed

theorem searchText_error_tags_witness:
  "snd (searchText demo_env ''/docs/notes.txt'' ''foo'' Omitted)
     = Inl (PDFKitError ''Invalid file type. Expected .pdf, got .txt'' ''InvalidFileType'')
   \<and> type_tag (PDFKitError ''Invalid file type. Expected .pdf, got .txt'' ''InvalidFileType'')
       = Some ''InvalidFileType''"
proof -
  have nt: "\<not> valid_path demo_env ''/docs/notes.txt''"
    by (simp add: demo_defs)
  have s: "snd (searchText demo_env ''/docs/notes.txt'' ''foo'' Omitted)
     = Inl (PDFKitError ''Invalid file type. Expected .pdf, got .txt'' ''InvalidFileType'')"
    by (simp add: searchText_def guarded_invalid [OF nt]) (simp add: demo_defs)
  show ?thesis
    using s searchText_error_tags [OF s] by simp
qed

text \<open>
  C6. When \<open>intoarray\<close> yields the lines of the file, the search term is not empty and the
  options are not \<open>null\<close>, \<open>searchText\<close> returns those lines, in their order, that contain
  the term as a contiguous substring: compared as they are when \<open>caseSensitive\<close> is
  \<open>true\<close>, and with both the line and the term lower-cased otherwise (also when the options
  or the flag are left out).
\<close>

theorem searchText_filters_lines:
  assumes "snd (intoarray env p) = Inr lines" and "searchTerm \<noteq> []" and "opts \<noteq> Null"
  shows "snd (searchText env p searchTerm opts) =
           Inr (filter (\<lambda>line. if opts = Obj (Some True) then sublist searchTerm line
                               else sublist (str_toLowerCase env searchTerm)
                                      (str_toLowerCase env line)) lines)
       \<and> (\<forall>found. snd (searchText env p searchTerm opts) = Inr found \<longrightarrow> subseq found lines)"
proof -
  have v: "valid_path env p"
    using assms(1) by (rule intoarray_success_valid)
  have "snd (searchText env p searchTerm opts) =
           Inr (filter (\<lambda>line. if opts = Obj (Some True) then sublist searchTerm line
                               else sublist (str_toLowerCase env searchTerm)
                                      (str_toLowerCase env line)) lines)"
    using assms(1)
    by (simp add: searchText_run [OF v assms(3) assms(2)] searchFunc_def str_includes_sublist
        cong: filter_cong)
  then show ?thesis by auto
qed


theorem searchText_filters_lines_witness:
  "snd (intoarray demo_env ''/docs/report.pdf'')
     = Inr [''Foo bar'', ''foo'', ''FOO baz'', ''a fOo'', ''qux'']
   \<and> ''Foo'' \<noteq> [] \<and> Obj (Some False) \<noteq> Null \<and> Obj (Some True) \<noteq> Null
   \<and> snd (searchText demo_env ''/docs/report.pdf'' ''Foo'' (Obj (Some False)))
       = Inr [''Foo bar'', ''foo'', ''FOO baz'', ''a fOo'']
   \<and> snd (searchText demo_env ''/docs/report.pdf'' ''Foo'' (Obj (Some True)))
       = Inr [''Foo bar'']"
proof -
  have v: "valid_path demo_env ''/docs/report.pdf''"
    by (simp add: demo_defs)
  have i: "snd (intoarray demo_env ''/docs/report.pdf'')
     = Inr [''Foo bar'', ''foo'', ''FOO baz'', ''a fOo'', ''qux'']"
    by (simp add: intoarray_valid [OF v]) (simp add: demo_defs)
  have t: "''Foo'' \<noteq> []" and o: "Obj (Some False) \<noteq> Null" "Obj (Some True) \<noteq> Null"
    by simp_all
  have l: "str_toLowerCase demo_env = ascii_toLowerCase"
    by (simp add: demo_env_def)
  have lc: "ascii_toLowerCase ''Foo'' = ''foo''" "ascii_toLowerCase ''Foo bar'' = ''foo bar''"
    "ascii_toLowerCase ''foo'' = ''foo''" "ascii_toLowerCase ''FOO baz'' = ''foo baz''"
    "ascii_toLowerCase ''a fOo'' = ''a foo''" "ascii_toLowerCase ''qux'' = ''qux''"
    by (simp_all add: ascii_toLowerCase_def ascii_lower_def)
  show ?thesis
    using i
      searchText_filters_lines [OF i t o(1), THEN conjunct1]
      searchText_filters_lines [OF i t o(2), THEN conjunct1]
    by (simp add: l lc str_includes_sublist [symmetric])
qed

subsection \<open>Conversion to text\<close>

lemma convertToText_run:
  assumes "valid_path env p" and "snd (intoarray env p) = Inr lines"
  shows "convertToText env p None = (ExistsSync p # fst (intoarray env p), Inr (join newline lines))"
    and "out \<noteq> [] \<Longrightarrow> convertToText env p (Some out) =
           (ExistsSync p # fst (intoarray env p) @ [WriteFileSync out (join newline lines)],
            case fs_writeFileSync env out (join newline lines) of
              None \<Rightarrow> Inr []
            | Some m \<Rightarrow> Inl (PDFKitError (''Failed to convert PDF to text: '' @ m)
                               ''ConvertToTextError''))"
proof -
  have i: "intoarray env p = (fst (intoarray env p), Inr lines)"
    using assms(2) by (simp add: prod_eq_iff)
  show "convertToText env p None = (ExistsSync p # fst (intoarray env p), Inr (join newline lines))"
    by (subst (1) convertToText_def, subst (1) i)
       (simp add: validateFilePath_valid [OF assms(1)] io_defs)
  show "convertToText env p (Some out) =
           (ExistsSync p # fst (intoarray env p) @ [WriteFileSync out (join newline lines)],
            case fs_writeFileSync env out (join newline lines) of
              None \<Rightarrow> Inr []
            | Some m \<Rightarrow> Inl (PDFKitError (''Failed to convert PDF to text: '' @ m)
                               ''ConvertToTextError''))"
    if "out \<noteq> []"
    using that
    by (subst (1) convertToText_def, subst (1) i)
       (simp add: validateFilePath_valid [OF assms(1)] writeFileSync_def io_defs
          split: option.splits)
qed

text \<open>
  C4. When \<open>intoarray\<close> yields the lines of the file, \<open>convertToText\<close> without an output path
  returns those lines joined with newlines. With a non-empty output path it asks the
  filesystem, as its last call, to write that same joined string to the output path; once
  the filesystem has accepted the write it returns the empty string, and it returns nothing
  else.
\<close>

theorem convertToText_joins_intoarray:
  assumes "snd (intoarray env p) = Inr lines"
  shows "snd (convertToText env p None) = Inr (join newline lines)
       \<and> (out \<noteq> [] \<longrightarrow>
            fst (convertToText env p (Some out))
              = ExistsSync p # fst (intoarray env p) @ [WriteFileSync out (join newline lines)])
       \<and> (out \<noteq> [] \<and> fs_writeFileSync env out (join newline lines) = None \<longrightarrow>
            snd (convertToText env p (Some out)) = Inr [])
       \<and> (out \<noteq> [] \<and> snd (convertToText env p (Some out)) = Inr returned \<longrightarrow>
            returned = [])"
proof -
  have v: "valid_path env p"
    using assms by (rule intoarray_success_valid)
  show ?thesis
    by (auto simp add: convertToText_run [OF v assms] split: option.splits)
qed

theorem convertToText_joins_intoarray_witness:
  "snd (intoarray demo_env ''/docs/report.pdf'')
     = Inr [''Foo bar'', ''foo'', ''FOO baz'', ''a fOo'', ''qux'']
   \<and> snd (convertToText demo_env ''/docs/report.pdf'' None) = Inr report_text
   \<and> ''/out/report.txt'' \<noteq> []
   \<and> fs_writeFileSync demo_env ''/out/report.txt'' report_text = None
   \<and> convertToText demo_env ''/docs/report.pdf'' (Some ''/out/report.txt'')
       = ([ExistsSync ''/docs/report.pdf'', ExistsSync ''/docs/report.pdf'',
           ReadFileSync ''/docs/report.pdf'', Pdfparse ''%PDF-report'',
           WriteFileSync ''/out/report.txt'' report_text],
          Inr [])"
proof -
  have v: "valid_path demo_env ''/docs/report.pdf''"
    by (simp add: demo_defs)
  have i: "intoarray demo_env ''/docs/report.pdf''
     = ([ExistsSync ''/docs/report.pdf'', ReadFileSync ''/docs/report.pdf'',
         Pdfparse ''%PDF-report''],
        Inr [''Foo bar'', ''foo'', ''FOO baz'', ''a fOo'', ''qux''])"
    by (simp add: intoarray_valid [OF v]) (simp add: demo_defs)
  have s: "snd (intoarray demo_env ''/docs/report.pdf'')
     = Inr [''Foo bar'', ''foo'', ''FOO baz'', ''a fOo'', ''qux'']"
    by (simp add: i)
  have j: "join newline [''Foo bar'', ''foo'', ''FOO baz'', ''a fOo'', ''qux''] = report_text"
    by (simp add: report_text_def)
  have w: "fs_writeFileSync demo_env ''/out/report.txt'' report_text = None"
    by (simp add: demo_env_def)
  show ?thesis
    using s w convertToText_joins_intoarray [OF s, of "''/out/report.txt''", unfolded j]
    by (simp add: i prod_eq_iff)
qed

subsection \<open>Page extraction\<close>

lemma copy_loop_eq:
  "copy_loop pdfDoc pageNumbers newPdfDoc =
     (requested_calls pdfDoc pageNumbers,
      Inr (newPdfDoc @ requested_pages pdfDoc pageNumbers))"
proof (induction pageNumbers arbitrary: newPdfDoc)
  case Nil
  show ?case
    by (simp add: requested_calls_def requested_pages_def ret_def)
next
  case (Cons pageNum rest)
  show ?case
    by (simp add: Cons.IH requested_calls_def requested_pages_def getPageCount_doc_def
        copyPages_def addPage_def warn_def io_defs)
qed

lemma save_eq:
  "save env (requested_pages pdfDoc pageNumbers) =
     call (Save (written_pages env pdfDoc pageNumbers))
       (PDFDocument_serialize env (written_pages env pdfDoc pageNumbers))"
  by (simp add: save_def written_pages_def getPageCount_doc_def addPage_def Let_def)

lemma extractPages_run:
  assumes "valid_path env inputPath" and "outputPath \<noteq> []" and "pageNumbers \<noteq> []"
    and "fs_readFileSync env inputPath = Inr sourcePdfBytes"
    and "PDFDocument_load env sourcePdfBytes = Inr pdfDoc"
    and "PDFDocument_serialize env (written_pages env pdfDoc pageNumbers) = Inr pdfBytes"
    and "fs_writeFileSync env outputPath pdfBytes = None"
  shows "extractPages env inputPath (Some outputPath) (Some pageNumbers) =
           ([ExistsSync inputPath, ReadFileSync inputPath, Load sourcePdfBytes, Create]
              @ requested_calls pdfDoc pageNumbers
              @ [Save (written_pages env pdfDoc pageNumbers),
                 WriteFileSync outputPath pdfBytes],
            Inr ())"
  using assms(2-7)
  by (simp add: extractPages_def validateFilePath_valid [OF assms(1)] copy_loop_eq save_eq
      readFileSync_def load_def create_def writeFileSync_def io_defs)

text \<open>
  C3, as the code has it. The claim holds but for its last example: with \<open>[0,6]\<close> on a
  five-page source no page is copied and nothing is thrown, yet the file written is not a
  document of no pages. \<open>save()\<close> is called without options, so the page library gives the
  empty document one blank page, and the file holds that page.
\<close>

theorem extractPages_empty_output_counterexample:
  "extractPages demo_env ''/docs/report.pdf'' (Some ''/out/pages.pdf'') (Some [0, 6])
     = ([ExistsSync ''/docs/report.pdf'', ReadFileSync ''/docs/report.pdf'',
         Load ''%PDF-report'', Create, Warn 0, Warn 6, Save [''blank''],
         WriteFileSync ''/out/pages.pdf'' ''%PDF|blank|''],
        Inr ())
   \<and> PDFDocument_load demo_env ''%PDF-report''
       = Inr [''page1'', ''page2'', ''page3'', ''page4'', ''page5'']
   \<and> PDFDocument_load demo_env ''%PDF|blank|'' = Inr [''blank'']
   \<and> length [''blank''] = (1::nat)"
proof -
  let ?doc = "[''page1'', ''page2'', ''page3'', ''page4'', ''page5'']"
  have v: "valid_path demo_env ''/docs/report.pdf''"
    by (simp add: demo_defs)
  have o: "''/out/pages.pdf'' \<noteq> []" and n: "[0, 6] \<noteq> ([]::int list)"
    by simp_all
  have r: "fs_readFileSync demo_env ''/docs/report.pdf'' = Inr ''%PDF-report''"
    by (simp add: demo_env_def)
  have l: "PDFDocument_load demo_env ''%PDF-report'' = Inr ?doc"
    by (simp add: demo_env_def)
  have p: "written_pages demo_env ?doc [0, 6] = [''blank'']"
    by (simp add: written_pages_def requested_pages_def demo_env_def)
  have c: "requested_calls ?doc [0, 6] = [Warn 0, Warn 6]"
    by (simp add: requested_calls_def)
  have s: "PDFDocument_serialize demo_env (written_pages demo_env ?doc [0, 6])
             = Inr ''%PDF|blank|''"
    by (simp add: p) (simp add: demo_env_def)
  have w: "fs_writeFileSync demo_env ''/out/pages.pdf'' ''%PDF|blank|'' = None"
    by (simp add: demo_env_def)
  have b: "PDFDocument_load demo_env ''%PDF|blank|'' = Inr [''blank'']"
    by (simp add: demo_env_def)
  show ?thesis
    using l b extractPages_run [OF v o n r l s w]
    by (simp add: p c)
qed

text \<open>
  C3, amended. On a valid input path, with a non-empty output path and a non-empty list of
  page numbers, and with the file read, loaded, serialised and written without failure,
  \<open>extractPages\<close> goes through the requested numbers in input order: for a number \<open>n\<close> with
  \<open>1 \<le> n \<le> page count\<close> it copies page \<open>n\<close> (index \<open>n - 1\<close>) to the end of the new document,
  for any other number it only warns, and nothing is thrown. The file written holds the
  requested pages in the requested order, duplicates kept, whenever at least one requested
  number is in range; when none is, it holds the single blank page that \<open>save()\<close> adds. On a
  five-page source \<open>[2,5,2]\<close> gives the pages 2, 5, 2, and \<open>[0,6]\<close> gives the blank page alone.
\<close>

theorem extractPages_writes_requested_pages:
  assumes "valid_path env inputPath" and "outputPath \<noteq> []" and "pageNumbers \<noteq> []"
    and "fs_readFileSync env inputPath = Inr sourcePdfBytes"
    and "PDFDocument_load env sourcePdfBytes = Inr pdfDoc"
    and "PDFDocument_serialize env (written_pages env pdfDoc pageNumbers) = Inr pdfBytes"
    and "fs_writeFileSync env outputPath pdfBytes = None"
  shows "extractPages env inputPath (Some outputPath) (Some pageNumbers) =
           ([ExistsSync inputPath, ReadFileSync inputPath, Load sourcePdfBytes, Create]
              @ map (\<lambda>n. if 1 \<le> n \<and> n \<le> int (length pdfDoc)
                          then CopyPages (nat (n - 1)) else Warn n) pageNumbers
              @ [Save (written_pages env pdfDoc pageNumbers),
                 WriteFileSync outputPath pdfBytes],
            Inr ())
       \<and> written_pages env pdfDoc pageNumbers =
           (if \<exists>n \<in> set pageNumbers. 1 \<le> n \<and> n \<le> int (length pdfDoc)
            then map (\<lambda>n. pdfDoc ! nat (n - 1))
                   (filter (\<lambda>n. 1 \<le> n \<and> n \<le> int (length pdfDoc)) pageNumbers)
            else [PDFPage_blank env])
       \<and> (length pdfDoc = 5 \<longrightarrow>
            written_pages env pdfDoc [2, 5, 2] = [pdfDoc ! 1, pdfDoc ! 4, pdfDoc ! 1]
          \<and> written_pages env pdfDoc [0, 6] = [PDFPage_blank env])"
proof -
  have "extractPages env inputPath (Some outputPath) (Some pageNumbers) =
           ([ExistsSync inputPath, ReadFileSync inputPath, Load sourcePdfBytes, Create]
              @ map (\<lambda>n. if 1 \<le> n \<and> n \<le> int (length pdfDoc)
                          then CopyPages (nat (n - 1)) else Warn n) pageNumbers
              @ [Save (written_pages env pdfDoc pageNumbers),
                 WriteFileSync outputPath pdfBytes],
            Inr ())"
    using extractPages_run [OF assms] by (simp add: requested_calls_def)
  moreover have "written_pages env pdfDoc pageNumbers =
           (if \<exists>n \<in> set pageNumbers. 1 \<le> n \<and> n \<le> int (length pdfDoc)
            then map (\<lambda>n. pdfDoc ! nat (n - 1))
                   (filter (\<lambda>n. 1 \<le> n \<and> n \<le> int (length pdfDoc)) pageNumbers)
            else [PDFPage_blank env])"
    by (auto simp add: written_pages_def requested_pages_def filter_empty_conv)
  moreover have "length pdfDoc = 5 \<longrightarrow>
            written_pages env pdfDoc [2, 5, 2] = [pdfDoc ! 1, pdfDoc ! 4, pdfDoc ! 1]
          \<and> written_pages env pdfDoc [0, 6] = [PDFPage_blank env]"
    by (simp add: written_pages_def requested_pages_def)
  ultimately show ?thesis by simp
qed

theorem extractPages_writes_requested_pages_witness:
  "valid_path demo_env ''/docs/report.pdf'' \<and> ''/out/pages.pdf'' \<noteq> [] \<and> [2, 5, 2] \<noteq> ([]::int list)
   \<and> fs_readFileSync demo_env ''/docs/report.pdf'' = Inr ''%PDF-report''
   \<and> PDFDocument_load demo_env ''%PDF-report''
       = Inr [''page1'', ''page2'', ''page3'', ''page4'', ''page5'']
   \<and> PDFDocument_serialize demo_env [''page2'', ''page5'', ''page2'']
       = Inr ''%PDF|page2|page5|page2|''
   \<and> fs_writeFileSync demo_env ''/out/pages.pdf'' ''%PDF|page2|page5|page2|'' = None
   \<and> extractPages demo_env ''/docs/report.pdf'' (Some ''/out/pages.pdf'') (Some [2, 5, 2])
       = ([ExistsSync ''/docs/report.pdf'', ReadFileSync ''/docs/report.pdf'',
           Load ''%PDF-report'', Create, CopyPages 1, CopyPages 4, CopyPages 1,
           Save [''page2'', ''page5'', ''page2''],
           WriteFileSync ''/out/pages.pdf'' ''%PDF|page2|page5|page2|''],
          Inr ())
   \<and> PDFDocument_load demo_env ''%PDF|page2|page5|page2|''
       = Inr [''page2'', ''page5'', ''page2'']"
proof -
  let ?doc = "[''page1'', ''page2'', ''page3'', ''page4'', ''page5'']"
  have v: "valid_path demo_env ''/docs/report.pdf''"
    by (simp add: demo_defs)
  have o: "''/out/pages.pdf'' \<noteq> []" and n: "[2, 5, 2] \<noteq> ([]::int list)"
    by simp_all
  have r: "fs_readFileSync demo_env ''/docs/report.pdf'' = Inr ''%PDF-report''"
    by (simp add: demo_env_def)
  have l: "PDFDocument_load demo_env ''%PDF-report'' = Inr ?doc"
    by (simp add: demo_env_def)
  have p: "written_pages demo_env ?doc [2, 5, 2] = [''page2'', ''page5'', ''page2'']"
    by (simp add: written_pages_def requested_pages_def)
  have s': "PDFDocument_serialize demo_env [''page2'', ''page5'', ''page2'']
             = Inr ''%PDF|page2|page5|page2|''"
    by (simp add: demo_env_def)
  have s: "PDFDocument_serialize demo_env (written_pages demo_env ?doc [2, 5, 2])
             = Inr ''%PDF|page2|page5|page2|''"
    by (simp add: p s')
  have w: "fs_writeFileSync demo_env ''/out/pages.pdf'' ''%PDF|page2|page5|page2|'' = None"
    by (simp add: demo_env_def)
  have b: "PDFDocument_load demo_env ''%PDF|page2|page5|page2|''
             = Inr [''page2'', ''page5'', ''page2'']"
    by (simp add: demo_env_def)
  show ?thesis
    using v r l s' w b
      extractPages_writes_requested_pages [OF v o n r l s w, THEN conjunct1]
    by (simp add: p)
qed

end
